theory Spec2Isabelle
  imports Main "HOL-Library.Multiset"
begin

section \<open>Errors\<close>

text \<open>
  The three sentinel errors of package \<open>migrate\<close>, errors handed up by the collaborators
  (database driver, file system, plugin loader) and the wrapping done by
  \<^verbatim>\<open>fmt.Errorf("<prefix>: %w", err)\<close>. \<open>Wrap p e\<close> is the error whose message is \<open>p\<close>,
  a colon and the message of \<open>e\<close>, and which unwraps to \<open>e\<close>; the bare
  \<^verbatim>\<open>fmt.Errorf("%w", err)\<close> of \<open>LoadMigrations\<close> is \<open>Wrap [] e\<close>.
\<close>

datatype error =
    ErrUnknownMigrationType
  | ErrInvalidMigrationFileName
  | ErrInvalidPluginMigration
  | External string
  | Wrap string error

section \<open>The database capability\<close>

text \<open>
  Package \<open>database\<close> (the root package of the repository) is consumed by \<open>migrate\<close>
  through \<open>RegisterStatement\<close>, \<open>Select\<close>, \<open>Insert\<close>, \<open>BeginTx\<close>, \<open>ExecTx\<close> and the
  transaction's \<open>Commit\<close> and \<open>Rollback\<close>. Its state is the registry of named statements,
  the committed rows \<open>(version, createdAt)\<close> of table \<open>dbVersion\<close>, and the committed user
  data, kept as the sequence of statement texts whose execution has been committed.
  A migration body is taken not to write to table \<open>dbVersion\<close> through SQL text.
\<close>

record Database =
  statements :: "(string \<times> string) list"
  dbVersion :: "(int \<times> int) list"
  applied :: "string list"

text \<open>An open transaction: the statement texts executed in it and not yet committed.\<close>

type_synonym Tx = "string list"

text \<open>
  What the world outside the engine does during one call: the clock reading
  \<^verbatim>\<open>time.Now().Unix()\<close>, and for each database operation whether it fails for a reason of
  the driver's own. Every operation is called at most once per \<open>Upgrade\<close>, so one value
  per operation describes one call; theorems quantify over all of them.
\<close>

record env =
  now :: int
  select_err :: "error option"
  begin_err :: "error option"
  register_err :: "error option"
  exec_err :: "error option"
  insert_err :: "error option"
  commit_err :: "error option"
  rollback_err :: "error option"

text \<open>
  Modelled from the spec: \<open>Database.RegisterStatement\<close> of package \<open>database\<close>, which is not
  among the sources. It registers a named statement once, to be executed later by name.
\<close>

definition RegisterStatement :: "string \<Rightarrow> string \<Rightarrow> Database \<Rightarrow> env \<Rightarrow> error + Database" where
  "RegisterStatement key stmt d w =
     (case register_err w of
        Some e \<Rightarrow> Inl e
      | None \<Rightarrow> Inr (d\<lparr>statements := (key, stmt) # statements d\<rparr>))"

text \<open>
  Modelled from the spec: \<open>Database.Select\<close> of package \<open>database\<close>, a typed row-scan query
  returning zero or more rows, at the statement \<open>GET_DB_VERSION\<close>, whose text is the
  constant \<open>getDbVersion\<close> of the source:
  \<^verbatim>\<open>select * from dbVersion order by version desc limit 1\<close>.
\<close>

definition Select_GET_DB_VERSION :: "Database \<Rightarrow> env \<Rightarrow> error + (int \<times> int) list" where
  "Select_GET_DB_VERSION d w =
     (case select_err w of
        Some e \<Rightarrow> Inl e
      | None \<Rightarrow> Inr (take 1 (rev (sort_key fst (dbVersion d)))))"

text \<open>
  Modelled from the spec: \<open>Database.Insert\<close> of package \<open>database\<close>, at the statement
  \<open>ADD_VERSION\<close> (\<^verbatim>\<open>insert into dbVersion (version, createdAt) values (?, ?)\<close>). It takes
  no transaction handle: the statement is executed directly, so the row is committed when
  the call returns. Column \<open>version\<close> is the primary key of the table
  (constant \<open>createDbVersionTable\<close>), so a second row of the same version is refused.
\<close>

definition Insert_ADD_VERSION :: "int \<Rightarrow> int \<Rightarrow> Database \<Rightarrow> env \<Rightarrow> error + Database" where
  "Insert_ADD_VERSION v t d w =
     (case insert_err w of
        Some e \<Rightarrow> Inl e
      | None \<Rightarrow>
          if v \<in> set (map fst (dbVersion d)) then Inl (External ''primary key'')
          else Inr (d\<lparr>dbVersion := dbVersion d @ [(v, t)]\<rparr>))"

text \<open>
  Modelled from the spec: \<open>Database.BeginTx\<close> of package \<open>database\<close>: begins a transaction,
  which starts with nothing executed in it.
\<close>

definition BeginTx :: "Database \<Rightarrow> env \<Rightarrow> error + Tx" where
  "BeginTx d w = (case begin_err w of Some e \<Rightarrow> Inl e | None \<Rightarrow> Inr [])"

text \<open>
  Modelled from the spec: \<open>Database.ExecTx\<close> of package \<open>database\<close>: executes a registered
  statement, by name, inside the supplied transaction.
\<close>

definition ExecTx :: "Tx \<Rightarrow> string \<Rightarrow> Database \<Rightarrow> env \<Rightarrow> error + Tx" where
  "ExecTx tx key d w =
     (case exec_err w of
        Some e \<Rightarrow> Inl e
      | None \<Rightarrow>
          (case map_of (statements d) key of
             None \<Rightarrow> Inl (External ''statement not registered'')
           | Some stmt \<Rightarrow> Inr (tx @ [stmt])))"

text \<open>
  Modelled from the spec: \<open>Tx.Commit\<close> of package \<open>database\<close>: makes what was executed in
  the transaction part of the committed state.
\<close>

definition Commit :: "Tx \<Rightarrow> Database \<Rightarrow> env \<Rightarrow> error + Database" where
  "Commit tx d w =
     (case commit_err w of
        Some e \<Rightarrow> Inl e
      | None \<Rightarrow> Inr (d\<lparr>applied := applied d @ tx\<rparr>))"

text \<open>
  Modelled from the spec: \<open>Tx.Rollback\<close> of package \<open>database\<close>: discards what was executed
  in the transaction; the committed state is not touched. The result is the error, if any.
\<close>

definition Rollback :: "Tx \<Rightarrow> env \<Rightarrow> error option" where
  "Rollback tx w = rollback_err w"

section \<open>Migrations\<close>

text \<open>
  \<open>Runner\<close> is the interface \<^verbatim>\<open>Run(*database.Database, database.Tx) error\<close>: an opaque
  callable that may change the database and the transaction it is given.
  \<open>Migration\<close> has the two implementations of the source; a \<open>PluginMigration\<close> with an
  arbitrary runner also stands for an implementation handed to \<open>AddMigration\<close> by the user.
\<close>

type_synonym Runner = "Database \<Rightarrow> Tx \<Rightarrow> error option \<times> Database \<times> Tx"

datatype Migration =
    SQLMigration string string int
  | PluginMigration string int Runner

fun Version :: "Migration \<Rightarrow> int" where
  "Version (SQLMigration p stmt v) = v"
| "Version (PluginMigration p v r) = v"

definition NewSQLMigration :: "int \<Rightarrow> string \<Rightarrow> Migration" where
  "NewSQLMigration v stmt = SQLMigration [] stmt v"

text \<open>\<^verbatim>\<open>fmt.Sprintf("%d", n)\<close>: the decimal digits, with a minus sign for a negative number.\<close>

fun dec_nat :: "nat \<Rightarrow> string" where
  "dec_nat n =
     (if n < 10 then [''0123456789'' ! n]
      else dec_nat (n div 10) @ [''0123456789'' ! (n mod 10)])"

definition Sprintf_d :: "int \<Rightarrow> string" where
  "Sprintf_d i = (if i < 0 then CHR ''-'' # dec_nat (nat (- i)) else dec_nat (nat i))"

text \<open>
  \<open>Run\<close> returns the error (or none) together with the database and the transaction as the
  call leaves them. For a SQL migration, a failed registration returns nil and executes
  nothing.
\<close>

fun Run :: "Migration \<Rightarrow> Database \<Rightarrow> Tx \<Rightarrow> env \<Rightarrow> error option \<times> Database \<times> Tx" where
  "Run (SQLMigration p stmt v) d tx w =
     (let key = ''DB_MIGRATION_'' @ Sprintf_d (Version (SQLMigration p stmt v)) in
      case RegisterStatement key stmt d w of
        Inl e \<Rightarrow> (None, d, tx)
      | Inr d' \<Rightarrow>
          (case ExecTx tx key d' w of
             Inl e \<Rightarrow> (Some e, d', tx)
           | Inr tx' \<Rightarrow> (None, d', tx')))"
| "Run (PluginMigration p v r) d tx w = r d tx"

section \<open>The service\<close>

record Service =
  db :: Database
  migrations :: "Migration list"
  err :: "error option"

definition Err :: "Service \<Rightarrow> error option" where
  "Err svc = err svc"

definition getDbVersion :: "Service \<Rightarrow> env \<Rightarrow> error + int" where
  "getDbVersion svc w =
     (case Select_GET_DB_VERSION (db svc) w of
        Inl e \<Rightarrow> Inl (Wrap ''select'' e)
      | Inr result \<Rightarrow>
          if length result = 0 then Inr (- 1) else Inr (fst (result ! 0)))"

definition CurrentVersion :: "Service \<Rightarrow> env \<Rightarrow> error + int" where
  "CurrentVersion svc w = getDbVersion svc w"

definition AddMigration :: "Migration \<Rightarrow> Service \<Rightarrow> Service" where
  "AddMigration m svc = svc\<lparr>migrations := migrations svc @ [m]\<rparr>"

text \<open>
  The deferred closure of \<open>Upgrade\<close>, run when the function returns after the transaction
  was begun: \<open>e\<close> is the function's variable \<open>err\<close> and \<open>tx\<close> its variable \<open>tx\<close>
  (\<open>None\<close> for nil). When the rollback itself fails, the last-error slot is overwritten
  with \<open>err\<close> (not the rollback's error) under the prefix \<open>rollback\<close>.
\<close>

definition deferred_rollback :: "error option \<Rightarrow> Tx option \<Rightarrow> env \<Rightarrow> Service \<Rightarrow> Service" where
  "deferred_rollback e tx w svc =
     (case (e, tx) of
        (Some e', Some tx') \<Rightarrow>
          (case Rollback tx' w of
             Some rollbackErr \<Rightarrow> svc\<lparr>err := Some (Wrap ''rollback'' e')\<rparr>
           | None \<Rightarrow> svc)
      | _ \<Rightarrow> svc)"

text \<open>
  The body of the \<open>if\<close> inside the loop of \<open>Upgrade\<close>: begin a transaction, run the
  migration, insert the version row, commit. Each \<open>return false\<close> after the \<open>defer\<close>
  statement runs the deferred closure.
\<close>

definition apply_migration :: "Migration \<Rightarrow> Service \<Rightarrow> env \<Rightarrow> bool \<times> Service" where
  "apply_migration m svc w =
     (let t = now w in
      case BeginTx (db svc) w of
        Inl e \<Rightarrow> (False, svc\<lparr>err := Some (Wrap ''begin tx'' e)\<rparr>)
      | Inr tx \<Rightarrow>
          (case Run m (db svc) tx w of
             (Some e, d1, tx1) \<Rightarrow>
               (False, deferred_rollback (Some e) (Some tx1) w
                         (svc\<lparr>db := d1, err := Some (Wrap ''exec'' e)\<rparr>))
           | (None, d1, tx1) \<Rightarrow>
               (case Insert_ADD_VERSION (Version m) t d1 w of
                  Inl e \<Rightarrow>
                    (False, deferred_rollback (Some e) (Some tx1) w
                              (svc\<lparr>db := d1, err := Some (Wrap ''add version'' e)\<rparr>))
                | Inr d2 \<Rightarrow>
                    (case Commit tx1 d2 w of
                       Inl e \<Rightarrow>
                         (False, deferred_rollback (Some e) (Some tx1) w
                                   (svc\<lparr>db := d2, err := Some (Wrap ''commit'' e)\<rparr>))
                     | Inr d3 \<Rightarrow>
                         (True, deferred_rollback None None w (svc\<lparr>db := d3\<rparr>))))))"

text \<open>
  The loop \<^verbatim>\<open>for _, migration := range svc.migrations\<close> of \<open>Upgrade\<close>: the first migration
  whose version is greater than \<open>version\<close> is applied and the function returns; when the
  loop runs out, the last-error slot is cleared and the result is false.
\<close>

fun upgrade_loop :: "Migration list \<Rightarrow> int \<Rightarrow> Service \<Rightarrow> env \<Rightarrow> bool \<times> Service" where
  "upgrade_loop [] version svc w = (False, svc\<lparr>err := None\<rparr>)"
| "upgrade_loop (migration # rest) version svc w =
     (if Version migration > version then apply_migration migration svc w
      else upgrade_loop rest version svc w)"

definition Upgrade :: "Service \<Rightarrow> env \<Rightarrow> bool \<times> Service" where
  "Upgrade svc w =
     (let svc0 = svc\<lparr>err := None\<rparr> in
      case getDbVersion svc0 w of
        Inl e \<Rightarrow> (False, svc0\<lparr>err := Some (Wrap ''get db version'' e)\<rparr>)
      | Inr version \<Rightarrow> upgrade_loop (migrations svc0) version svc0 w)"

section \<open>Loading migrations from a folder\<close>

subsection \<open>Library functions on strings\<close>

text \<open>
  The lower-casing of one ASCII byte, as \<^verbatim>\<open>strings.ToLower\<close> does it on a string of
  ASCII bytes: the letters \<open>A\<close> to \<open>Z\<close> are mapped, every other byte is kept.
\<close>

definition lower_char :: "char \<Rightarrow> char" where
  "lower_char c =
     (case map_of (zip ''ABCDEFGHIJKLMNOPQRSTUVWXYZ'' ''abcdefghijklmnopqrstuvwxyz'') c of
        Some l \<Rightarrow> l
      | None \<Rightarrow> c)"

text \<open>
  \<^verbatim>\<open>path.Ext\<close>: the suffix beginning at the final dot in the final slash-separated
  element of the path, empty if there is no dot. The source scans from the end; the first
  argument is the part not yet scanned, reversed, the second the part scanned.
\<close>

fun Ext_scan :: "string \<Rightarrow> string \<Rightarrow> string" where
  "Ext_scan [] seen = []"
| "Ext_scan (c # cs) seen =
     (if c = CHR ''/'' then []
      else if c = CHR ''.'' then c # seen
      else Ext_scan cs (c # seen))"

definition path_Ext :: "string \<Rightarrow> string" where
  "path_Ext p = Ext_scan (rev p) []"

text \<open>
  \<^verbatim>\<open>path.Clean\<close> and \<^verbatim>\<open>path.Join\<close>: the path is cut at slashes; empty elements and
  \<open>.\<close> are dropped; \<open>..\<close> removes the element before it, is dropped at the root, and is
  kept at the start of a relative path; an empty result is \<open>.\<close>.
\<close>

fun split_slash :: "string \<Rightarrow> string \<Rightarrow> string list" where
  "split_slash [] cur = [rev cur]"
| "split_slash (c # cs) cur =
     (if c = CHR ''/'' then rev cur # split_slash cs [] else split_slash cs (c # cur))"

fun clean_elems :: "string list \<Rightarrow> bool \<Rightarrow> string list \<Rightarrow> string list" where
  "clean_elems [] rooted out = rev out"
| "clean_elems (e # es) rooted out =
     (if e = [] \<or> e = ''.'' then clean_elems es rooted out
      else if e = ''..'' then
        (case out of
           [] \<Rightarrow> if rooted then clean_elems es rooted out else clean_elems es rooted [e]
         | last_elem # below \<Rightarrow>
             if last_elem = ''..'' then clean_elems es rooted (e # out)
             else clean_elems es rooted below)
      else clean_elems es rooted (e # out))"

fun join_slash :: "string list \<Rightarrow> string" where
  "join_slash [] = []"
| "join_slash [e] = e"
| "join_slash (e # es) = e @ ''/'' @ join_slash es"

definition path_Clean :: "string \<Rightarrow> string" where
  "path_Clean p =
     (let rooted = (take 1 p = ''/'');
          body = join_slash (clean_elems (split_slash p []) rooted []);
          res = (if rooted then ''/'' @ body else body)
      in if res = [] then ''.'' else res)"

definition path_Join :: "string \<Rightarrow> string \<Rightarrow> string" where
  "path_Join a b =
     (if a = [] \<and> b = [] then []
      else if a = [] then path_Clean b
      else if b = [] then path_Clean a
      else path_Clean (a @ ''/'' @ b))"

text \<open>
  \<^verbatim>\<open>strconv.Atoi\<close> on a string of decimal digits, with the error dropped as the source
  drops it: a value out of range comes back as the largest \<open>int\<close> (64 bits).
\<close>

definition digit_val :: "char \<Rightarrow> nat" where
  "digit_val c = of_char c - 48"

definition Atoi :: "string \<Rightarrow> int" where
  "Atoi s = min (int (foldl (\<lambda>a c. 10 * a + digit_val c) 0 s)) (2 ^ 63 - 1)"

subsection \<open>The file name pattern\<close>

text \<open>
  \<open>fileNameRegex\<close> is \<^verbatim>\<open>(\d+)_(.*?)\.(sql|so)\<close>, not anchored, and
  \<open>FindStringSubmatch\<close> returns the leftmost match with its three groups, or nothing.
  At a given start the digit group is the whole run of digits there (a shorter one would
  be followed by a digit, not by the underscore); the label is the shortest run of
  characters other than newline after which \<open>.sql\<close> or \<open>.so\<close> follows.
\<close>

definition is_digit :: "char \<Rightarrow> bool" where
  "is_digit c = (c \<in> set ''0123456789'')"

fun lazy_label :: "string \<Rightarrow> string \<Rightarrow> (string \<times> string) option" where
  "lazy_label lab [] = None"
| "lazy_label lab (c # cs) =
     (if take 4 (c # cs) = ''.sql'' then Some (rev lab, ''sql'')
      else if take 3 (c # cs) = ''.so'' then Some (rev lab, ''so'')
      else if c = CHR 0x0A then None
      else lazy_label (c # lab) cs)"

definition match_here :: "string \<Rightarrow> string list option" where
  "match_here s =
     (let ds = takeWhile is_digit s; r = dropWhile is_digit s in
      if ds = [] then None
      else (case r of
              [] \<Rightarrow> None
            | c # r' \<Rightarrow>
                if c = CHR ''_'' then
                  (case lazy_label [] r' of
                     None \<Rightarrow> None
                   | Some (lab, ext) \<Rightarrow> Some [ds @ ''_'' @ lab @ ''.'' @ ext, ds, lab, ext])
                else None))"

fun FindStringSubmatch :: "string \<Rightarrow> string list" where
  "FindStringSubmatch [] = []"
| "FindStringSubmatch (c # cs) =
     (case match_here (c # cs) of
        Some groups \<Rightarrow> groups
      | None \<Rightarrow> FindStringSubmatch cs)"

subsection \<open>The host: directory listing, file contents, plugins, Unicode tables\<close>

text \<open>
  \<open>ReadDir\<close> is \<^verbatim>\<open>ioutil.ReadDir\<close>, of which the loader uses the entry names, in the
  order listed; \<open>ReadFile\<close> is \<^verbatim>\<open>os.Open\<close> followed by \<^verbatim>\<open>ioutil.ReadAll\<close>, with the
  error of either; \<open>plugin_Open\<close> is \<^verbatim>\<open>plugin.Open\<close>, giving the plugin's \<open>Lookup\<close>.
  A symbol either implements \<open>Runner\<close> or does not. \<open>unicode_ToLower\<close> is what
  \<^verbatim>\<open>strings.ToLower\<close> returns on a string that is not pure ASCII, where it maps every
  rune through the Unicode case tables (\<^verbatim>\<open>strings.Map(unicode.ToLower, s)\<close>); the tables
  are not modelled, so the mapping is a parameter and every theorem holds for any.
\<close>

datatype symbol = RunnerSymbol Runner | OtherSymbol

record host =
  ReadDir :: "string \<Rightarrow> error + string list"
  ReadFile :: "string \<Rightarrow> error + string"
  plugin_Open :: "string \<Rightarrow> error + (string \<Rightarrow> error + symbol)"
  unicode_ToLower :: "string \<Rightarrow> string"

text \<open>
  \<^verbatim>\<open>strings.ToLower\<close>: when every byte of the string is below \<open>0x80\<close> the letters
  \<open>A\<close> to \<open>Z\<close> are lower-cased byte by byte; otherwise the result is that of the Unicode
  mapping.
\<close>

definition ToLower :: "host \<Rightarrow> string \<Rightarrow> string" where
  "ToLower h s =
     (if list_all (\<lambda>c. of_char c < (128 :: nat)) s then map lower_char s
      else unicode_ToLower h s)"

definition NewSQLMigrationFile :: "host \<Rightarrow> string \<Rightarrow> error + Migration" where
  "NewSQLMigrationFile h p =
     (let matches = FindStringSubmatch p in
      if length matches = 0 then Inl ErrInvalidMigrationFileName
      else
        (let version = Atoi (matches ! 1) in
         case ReadFile h p of
           Inl e \<Rightarrow> Inl e
         | Inr b \<Rightarrow> Inr (SQLMigration p b version)))"

definition NewPluginMigration :: "host \<Rightarrow> string \<Rightarrow> error + Migration" where
  "NewPluginMigration h p =
     (let matches = FindStringSubmatch p in
      if length matches = 0 then Inl ErrInvalidMigrationFileName
      else
        (let version = Atoi (matches ! 1) in
         case plugin_Open h p of
           Inl e \<Rightarrow> Inl e
         | Inr Lookup \<Rightarrow>
             (case Lookup ''Runner'' of
                Inl e \<Rightarrow> Inl e
              | Inr (RunnerSymbol r) \<Rightarrow> Inr (PluginMigration p version r)
              | Inr OtherSymbol \<Rightarrow> Inl ErrInvalidPluginMigration)))"

text \<open>
  The \<open>switch\<close> on the lower-cased extension in the loop of \<open>getMigrations\<close>, for one
  directory entry.
\<close>

definition load_entry :: "host \<Rightarrow> string \<Rightarrow> string \<Rightarrow> error + Migration" where
  "load_entry h folder name =
     (let extn = ToLower h (path_Ext name) in
      if extn = ''.sql'' then NewSQLMigrationFile h (path_Join folder name)
      else if extn = ''.so'' then NewPluginMigration h (path_Join folder name)
      else Inl (Wrap (''extension '' @ extn) ErrUnknownMigrationType))"

text \<open>
  The loop \<^verbatim>\<open>for _, file := range files\<close>: each migration is appended to
  \<open>svc.migrations\<close> as soon as it is loaded; the first error returns at once.
\<close>

fun load_loop :: "host \<Rightarrow> string \<Rightarrow> string list \<Rightarrow> Service \<Rightarrow> error option \<times> Service" where
  "load_loop h folder [] svc = (None, svc)"
| "load_loop h folder (name # rest) svc =
     (case load_entry h folder name of
        Inl e \<Rightarrow> (Some e, svc)
      | Inr m \<Rightarrow> load_loop h folder rest (svc\<lparr>migrations := migrations svc @ [m]\<rparr>))"

text \<open>
  \<^verbatim>\<open>sort.SliceStable\<close> with the comparison of versions is the stable sort by the key
  \<open>Version\<close>.
\<close>

definition getMigrations :: "Service \<Rightarrow> host \<Rightarrow> string \<Rightarrow> (error + Migration list) \<times> Service" where
  "getMigrations svc h folder =
     (case (if length folder > 0 then ReadDir h folder else Inr []) of
        Inl e \<Rightarrow> (Inl (Wrap ''readdir'' e), svc)
      | Inr files \<Rightarrow>
          (case load_loop h folder files svc of
             (Some e, svc1) \<Rightarrow> (Inl e, svc1)
           | (None, svc1) \<Rightarrow>
               (let svc2 = svc1\<lparr>migrations := sort_key Version (migrations svc1)\<rparr>
                in (Inr (migrations svc2), svc2))))"

definition LoadMigrations :: "Service \<Rightarrow> host \<Rightarrow> string \<Rightarrow> error option \<times> Service" where
  "LoadMigrations svc h p =
     (case getMigrations svc h p of
        (Inl e, svc1) \<Rightarrow> (Some (Wrap [] e), svc1)
      | (Inr ms, svc1) \<Rightarrow> (None, svc1))"

section \<open>Notions used to state the properties\<close>

text \<open>
  The current version in the words of the specification: the maximum version across all
  recorded rows, or \<open>-1\<close> if no rows exist.
\<close>

definition max_recorded_version :: "Database \<Rightarrow> int" where
  "max_recorded_version d =
     (if dbVersion d = [] then - 1 else Max (set (map fst (dbVersion d))))"

text \<open>
  A caller invoking \<open>Upgrade\<close> again and again, once for each element of the list (what
  the world does during that call); the results of the calls and the service at the end.
\<close>

fun Upgrades :: "Service \<Rightarrow> env list \<Rightarrow> bool list \<times> Service" where
  "Upgrades svc [] = ([], svc)"
| "Upgrades svc (w # ws) =
     (case Upgrade svc w of
        (b, svc1) \<Rightarrow> (case Upgrades svc1 ws of (bs, svc2) \<Rightarrow> (b # bs, svc2)))"

text \<open>A migration whose body never changes the rows of table \<open>dbVersion\<close>.\<close>

definition leaves_version_rows :: "Migration \<Rightarrow> bool" where
  "leaves_version_rows m \<longleftrightarrow> (\<forall>d tx w. dbVersion (fst (snd (Run m d tx w))) = dbVersion d)"

text \<open>
  Values for examples: a world in which no operation fails, at clock reading \<open>t\<close>; an empty
  database; a service on an empty database holding the given migrations.
\<close>

definition no_faults :: "int \<Rightarrow> env" where
  "no_faults t =
     \<lparr>now = t, select_err = None, begin_err = None, register_err = None, exec_err = None,
      insert_err = None, commit_err = None, rollback_err = None\<rparr>"

definition empty_database :: Database where
  "empty_database = \<lparr>statements = [], dbVersion = [], applied = []\<rparr>"

definition fresh_service :: "Migration list \<Rightarrow> Service" where
  "fresh_service ms = \<lparr>db = empty_database, migrations = ms, err = None\<rparr>"



text \<open>
  A host for examples: three directories, every file readable with the same contents,
  no plugin loadable (the Unicode mapping is not reached: all names are ASCII).
\<close>

definition example_host :: host where
  "example_host =
     \<lparr>ReadDir = (\<lambda>d.
        if d = ''m'' then Inr [''0003_x.sql'', ''0001_y.sql'']
        else if d = ''bad'' then Inr [''0001_a.sql'', ''0002_b.txt'', ''0003_c.sql'']
        else if d = ''odd'' then Inr [''x1_y.sql'']
        else Inl (External ''no such directory'')),
      ReadFile = (\<lambda>p. Inr ''SELECT 1''),
      plugin_Open = (\<lambda>p. Inl (External ''not a plugin'')),
      unicode_ToLower = (\<lambda>s. s)\<rparr>"

section \<open>Auxiliary facts\<close>

lemmas model_defs =
  Upgrade_def apply_migration_def deferred_rollback_def getDbVersion_def CurrentVersion_def
  Select_GET_DB_VERSION_def Insert_ADD_VERSION_def BeginTx_def ExecTx_def Commit_def
  Rollback_def RegisterStatement_def Sprintf_d_def Err_def AddMigration_def NewSQLMigration_def
  no_faults_def empty_database_def fresh_service_def

lemma sorted_last_Max:
  fixes xs :: "int list"
  shows "sorted xs \<Longrightarrow> xs \<noteq> [] \<Longrightarrow> last xs = Max (set xs)"
proof (induction xs)
  case Nil
  then show ?case by simp
next
  case (Cons x xs)
  show ?case
  proof (cases "xs = []")
    case True
    then show ?thesis by simp
  next
    case False
    with Cons have "last xs = Max (set xs)" by simp
    moreover have "x \<le> Max (set xs)"
      using Cons.prems False
      by (meson List.finite_set Max_ge_iff last_in_set set_empty sorted_simps(2))
    ultimately show ?thesis using False by (simp add: max_def)
  qed
qed

lemma fst_last_sort_key:
  fixes rows :: "(int \<times> int) list"
  assumes "rows \<noteq> []"
  shows "fst (last (sort_key fst rows)) = Max (set (map fst rows))"
proof -
  have ne: "sort_key fst rows \<noteq> []"
    using assms by (metis length_sort list.size(3) length_0_conv)
  have "fst (last (sort_key fst rows)) = last (map fst (sort_key fst rows))"
    using ne by (simp add: last_map)
  also have "\<dots> = Max (set (map fst (sort_key fst rows)))"
    by (rule sorted_last_Max) (use ne in simp_all)
  finally show ?thesis by simp
qed

lemma getDbVersion_eq:
  "getDbVersion svc w =
     (case select_err w of
        Some e \<Rightarrow> Inl (Wrap ''select'' e)
      | None \<Rightarrow> Inr (max_recorded_version (db svc)))"
proof (cases "dbVersion (db svc) = []")
  case True
  then show ?thesis
    by (simp add: getDbVersion_def Select_GET_DB_VERSION_def max_recorded_version_def
        split: option.splits)
next
  case False
  then have "sort_key fst (dbVersion (db svc)) \<noteq> []"
    by (metis length_sort length_0_conv)
  then obtain r rs where rr: "rev (sort_key fst (dbVersion (db svc))) = r # rs"
    by (cases "rev (sort_key fst (dbVersion (db svc)))") auto
  then have "r = last (sort_key fst (dbVersion (db svc)))"
    by (metis hd_rev list.sel(1))
  then have "fst r = Max (set (map fst (dbVersion (db svc))))"
    using fst_last_sort_key[OF False] by simp
  then show ?thesis
    using False rr
    by (simp add: getDbVersion_def Select_GET_DB_VERSION_def max_recorded_version_def
        split: option.splits)
qed

lemma getDbVersion_err_irrelevant [simp]:
  "getDbVersion (svc\<lparr>err := x\<rparr>) w = getDbVersion svc w"
  by (simp add: getDbVersion_def)

lemma upgrade_loop_find:
  "upgrade_loop ms v svc w =
     (case find (\<lambda>m. v < Version m) ms of
        None \<Rightarrow> (False, svc\<lparr>err := None\<rparr>)
      | Some m \<Rightarrow> apply_migration m svc w)"
  by (induction ms) auto

lemma Upgrade_find:
  "Upgrade svc w =
     (case getDbVersion svc w of
        Inl e \<Rightarrow> (False, svc\<lparr>err := Some (Wrap ''get db version'' e)\<rparr>)
      | Inr v \<Rightarrow>
          (case find (\<lambda>m. v < Version m) (migrations svc) of
             None \<Rightarrow> (False, svc\<lparr>err := None\<rparr>)
           | Some m \<Rightarrow> apply_migration m (svc\<lparr>err := None\<rparr>) w))"
  by (simp add: Upgrade_def upgrade_loop_find Let_def split: sum.splits option.splits)

lemma apply_migration_success:
  assumes "begin_err w = None" "Run m (db svc) [] w = (None, d1, tx1)"
    "Insert_ADD_VERSION (Version m) (now w) d1 w = Inr d2" "Commit tx1 d2 w = Inr d3"
  shows "apply_migration m svc w = (True, svc\<lparr>db := d3\<rparr>)"
  using assms by (simp add: apply_migration_def BeginTx_def deferred_rollback_def)

lemma apply_migration_True_iff:
  "fst (apply_migration m svc w) \<longleftrightarrow>
     (begin_err w = None \<and>
      (\<exists>d1 tx1 d2 d3. Run m (db svc) [] w = (None, d1, tx1) \<and>
         Insert_ADD_VERSION (Version m) (now w) d1 w = Inr d2 \<and> Commit tx1 d2 w = Inr d3))"
  by (auto simp add: apply_migration_def BeginTx_def deferred_rollback_def Rollback_def
      split: option.splits sum.splits prod.splits)

lemma find_after_skipped:
  "(\<forall>x \<in> set skipped. \<not> P x) \<Longrightarrow> P m \<Longrightarrow> find P (skipped @ m # rest) = Some m"
  by (induction skipped) auto

section \<open>The current version\<close>

text \<open>
  Claim C6. For every database state, \<open>CurrentVersion\<close> returns the maximum version across
  all recorded version rows, or \<open>-1\<close> if there are no rows; when the read fails it returns
  the error, wrapped under \<open>select\<close>.
\<close>

theorem CurrentVersion_is_max:
  "CurrentVersion svc w =
     (case select_err w of
        Some e \<Rightarrow> Inl (Wrap ''select'' e)
      | None \<Rightarrow> Inr (max_recorded_version (db svc)))"
  unfolding CurrentVersion_def by (rule getDbVersion_eq)

theorem CurrentVersion_is_max_witness:
  "CurrentVersion
     \<lparr>db = \<lparr>statements = [], dbVersion = [(1, 10), (3, 30), (2, 20)], applied = []\<rparr>,
      migrations = [], err = None\<rparr> (no_faults 0) = Inr 3
   \<and> CurrentVersion (fresh_service []) (no_faults 0) = Inr (- 1)
   \<and> CurrentVersion (fresh_service []) ((no_faults 0)\<lparr>select_err := Some (External ''gone'')\<rparr>)
       = Inl (Wrap ''select'' (External ''gone''))"
  using CurrentVersion_is_max [of
      "\<lparr>db = \<lparr>statements = [], dbVersion = [(1, 10), (3, 30), (2, 20)], applied = []\<rparr>,
        migrations = [], err = None\<rparr>" "no_faults 0"]
    CurrentVersion_is_max [of "fresh_service []" "no_faults 0"]
    CurrentVersion_is_max [of "fresh_service []"
      "(no_faults 0)\<lparr>select_err := Some (External ''gone'')\<rparr>"]
  by (simp add: max_recorded_version_def no_faults_def fresh_service_def empty_database_def)

section \<open>One upgrade step\<close>

text \<open>
  Claim C4. Each \<open>Upgrade\<close> call applies at most one migration. With \<open>v\<close> the current version
  read from the version store: when no migration has a version above \<open>v\<close> the call returns
  false with the error slot cleared; otherwise the migrations before the first one above
  \<open>v\<close> are skipped and the call is the application of that one migration \<open>m\<close> alone. It
  returns true exactly when the transaction begins, the body of \<open>m\<close> runs, the version
  row is inserted and the commit succeeds, and then the row recorded is
  \<open>(Version m, now)\<close> and what the body executed in the transaction is committed.
\<close>

theorem Upgrade_applies_first_pending:
  assumes "getDbVersion svc w = Inr v"
  shows "((\<forall>m \<in> set (migrations svc). Version m \<le> v) \<longrightarrow>
            Upgrade svc w = (False, svc\<lparr>err := None\<rparr>))
       \<and> (\<forall>skipped m rest.
            migrations svc = skipped @ m # rest \<and> (\<forall>x \<in> set skipped. Version x \<le> v)
              \<and> v < Version m \<longrightarrow>
              Upgrade svc w = apply_migration m (svc\<lparr>err := None\<rparr>) w
            \<and> (fst (Upgrade svc w) \<longleftrightarrow>
                  begin_err w = None \<and>
                  (\<exists>d1 tx1 d2 d3. Run m (db svc) [] w = (None, d1, tx1) \<and>
                     Insert_ADD_VERSION (Version m) (now w) d1 w = Inr d2 \<and>
                     Commit tx1 d2 w = Inr d3))
            \<and> (\<forall>d1 tx1 d2 d3.
                  begin_err w = None \<and> Run m (db svc) [] w = (None, d1, tx1) \<and>
                  Insert_ADD_VERSION (Version m) (now w) d1 w = Inr d2 \<and>
                  Commit tx1 d2 w = Inr d3 \<longrightarrow>
                    Upgrade svc w = (True, svc\<lparr>db := d3, err := None\<rparr>)
                  \<and> dbVersion d3 = dbVersion d1 @ [(Version m, now w)]
                  \<and> applied d3 = applied d1 @ tx1))"
proof (intro conjI allI impI)
  assume "\<forall>m \<in> set (migrations svc). Version m \<le> v"
  then have "find (\<lambda>m. v < Version m) (migrations svc) = None"
    by (auto simp: find_None_iff)
  then show "Upgrade svc w = (False, svc\<lparr>err := None\<rparr>)"
    using assms by (simp add: Upgrade_find)
next
  fix skipped m rest
  assume h: "migrations svc = skipped @ m # rest \<and> (\<forall>x \<in> set skipped. Version x \<le> v)
              \<and> v < Version m"
  then have "find (\<lambda>m. v < Version m) (migrations svc) = Some m"
    using find_after_skipped[of skipped "\<lambda>m. v < Version m" m rest] by (simp add: not_less)
  then show U: "Upgrade svc w = apply_migration m (svc\<lparr>err := None\<rparr>) w"
    using assms by (simp add: Upgrade_find)
  show "fst (Upgrade svc w) \<longleftrightarrow>
          begin_err w = None \<and>
          (\<exists>d1 tx1 d2 d3. Run m (db svc) [] w = (None, d1, tx1) \<and>
             Insert_ADD_VERSION (Version m) (now w) d1 w = Inr d2 \<and>
             Commit tx1 d2 w = Inr d3)"
    unfolding U by (simp add: apply_migration_True_iff)
  fix d1 tx1 d2 d3
  assume s: "begin_err w = None \<and> Run m (db svc) [] w = (None, d1, tx1) \<and>
             Insert_ADD_VERSION (Version m) (now w) d1 w = Inr d2 \<and>
             Commit tx1 d2 w = Inr d3"
  then show "Upgrade svc w = (True, svc\<lparr>db := d3, err := None\<rparr>)"
    unfolding U using apply_migration_success[of w m "svc\<lparr>err := None\<rparr>" d1 tx1 d2 d3] by simp
  from s show "dbVersion d3 = dbVersion d1 @ [(Version m, now w)]"
    by (auto simp: Insert_ADD_VERSION_def Commit_def split: option.splits if_splits)
  from s show "applied d3 = applied d1 @ tx1"
    by (auto simp: Insert_ADD_VERSION_def Commit_def split: option.splits if_splits)
qed

theorem Upgrade_applies_first_pending_witness:
  "getDbVersion
     \<lparr>db = \<lparr>statements = [], dbVersion = [(1, 50)], applied = [''A'']\<rparr>,
      migrations = [SQLMigration [] ''A'' 1, SQLMigration [] ''B'' 2, SQLMigration [] ''C'' 3],
      err = None\<rparr> (no_faults 60) = Inr 1
   \<and> Upgrade
     \<lparr>db = \<lparr>statements = [], dbVersion = [(1, 50)], applied = [''A'']\<rparr>,
      migrations = [SQLMigration [] ''A'' 1, SQLMigration [] ''B'' 2, SQLMigration [] ''C'' 3],
      err = None\<rparr> (no_faults 60)
     = (True,
        \<lparr>db = \<lparr>statements = [(''DB_MIGRATION_2'', ''B'')], dbVersion = [(1, 50), (2, 60)],
               applied = [''A'', ''B'']\<rparr>,
         migrations = [SQLMigration [] ''A'' 1, SQLMigration [] ''B'' 2, SQLMigration [] ''C'' 3],
         err = None\<rparr>)"
  using Upgrade_applies_first_pending [of
     "\<lparr>db = \<lparr>statements = [], dbVersion = [(1, 50)], applied = [''A'']\<rparr>,
      migrations = [SQLMigration [] ''A'' 1, SQLMigration [] ''B'' 2, SQLMigration [] ''C'' 3],
      err = None\<rparr>" "no_faults 60" 1]
  by (simp add: model_defs)

text \<open>
  Claim C5. \<open>Upgrade\<close> returns a boolean only; every failure is reported through the
  last-error slot. A failed version read, transaction begin, body run, version insert or
  commit gives the result false with a wrapped error in the slot (under the prefix of the
  stage or, when the rollback fails too, under \<open>rollback\<close>); with nothing pending the
  result is false and the slot is cleared. So after any call \<open>Err\<close> is nil exactly when the
  call returned true or found nothing pending.
\<close>

theorem Upgrade_error_slot:
  "(Err (snd (Upgrade svc w)) = None \<longleftrightarrow>
      fst (Upgrade svc w) \<or>
      (\<exists>v. getDbVersion svc w = Inr v \<and> find (\<lambda>m. v < Version m) (migrations svc) = None))
   \<and> (Err (snd (Upgrade svc w)) \<noteq> None \<longrightarrow>
        \<not> fst (Upgrade svc w) \<and> (\<exists>p e. Err (snd (Upgrade svc w)) = Some (Wrap p e)))
   \<and> (\<forall>e. getDbVersion svc w = Inl e \<longrightarrow>
        Upgrade svc w = (False, svc\<lparr>err := Some (Wrap ''get db version'' e)\<rparr>))
   \<and> (\<forall>v. getDbVersion svc w = Inr v \<and> find (\<lambda>m. v < Version m) (migrations svc) = None \<longrightarrow>
        Upgrade svc w = (False, svc\<lparr>err := None\<rparr>))
   \<and> (\<forall>v m. getDbVersion svc w = Inr v \<and> find (\<lambda>m. v < Version m) (migrations svc) = Some m \<longrightarrow>
        (\<forall>e. begin_err w = Some e \<longrightarrow>
           Upgrade svc w = (False, svc\<lparr>err := Some (Wrap ''begin tx'' e)\<rparr>))
      \<and> (\<forall>e d1 tx1. begin_err w = None \<and> Run m (db svc) [] w = (Some e, d1, tx1) \<longrightarrow>
           Upgrade svc w =
             (False, svc\<lparr>db := d1,
                err := Some (Wrap (if rollback_err w = None then ''exec'' else ''rollback'') e)\<rparr>))
      \<and> (\<forall>e d1 tx1. begin_err w = None \<and> Run m (db svc) [] w = (None, d1, tx1) \<and>
             Insert_ADD_VERSION (Version m) (now w) d1 w = Inl e \<longrightarrow>
           Upgrade svc w =
             (False, svc\<lparr>db := d1,
                err := Some (Wrap (if rollback_err w = None then ''add version'' else ''rollback'') e)\<rparr>))
      \<and> (\<forall>e d1 tx1 d2. begin_err w = None \<and> Run m (db svc) [] w = (None, d1, tx1) \<and>
             Insert_ADD_VERSION (Version m) (now w) d1 w = Inr d2 \<and> Commit tx1 d2 w = Inl e \<longrightarrow>
           Upgrade svc w =
             (False, svc\<lparr>db := d2,
                err := Some (Wrap (if rollback_err w = None then ''commit'' else ''rollback'') e)\<rparr>)))"
proof -
  have slot: "Err (snd (Upgrade svc w)) = None \<longleftrightarrow>
      fst (Upgrade svc w) \<or>
      (\<exists>v. getDbVersion svc w = Inr v \<and> find (\<lambda>m. v < Version m) (migrations svc) = None)"
    by (auto simp add: Upgrade_find Err_def apply_migration_def BeginTx_def deferred_rollback_def
        Rollback_def split: option.splits sum.splits prod.splits)
  have wrapped: "Err (snd (Upgrade svc w)) \<noteq> None \<longrightarrow>
        \<not> fst (Upgrade svc w) \<and> (\<exists>p e. Err (snd (Upgrade svc w)) = Some (Wrap p e))"
    by (auto simp add: Upgrade_find Err_def apply_migration_def BeginTx_def deferred_rollback_def
        Rollback_def split: option.splits sum.splits prod.splits)
  have stages: "\<forall>v m. getDbVersion svc w = Inr v \<and> find (\<lambda>m. v < Version m) (migrations svc) = Some m \<longrightarrow>
        (\<forall>e. begin_err w = Some e \<longrightarrow>
           Upgrade svc w = (False, svc\<lparr>err := Some (Wrap ''begin tx'' e)\<rparr>))
      \<and> (\<forall>e d1 tx1. begin_err w = None \<and> Run m (db svc) [] w = (Some e, d1, tx1) \<longrightarrow>
           Upgrade svc w =
             (False, svc\<lparr>db := d1,
                err := Some (Wrap (if rollback_err w = None then ''exec'' else ''rollback'') e)\<rparr>))
      \<and> (\<forall>e d1 tx1. begin_err w = None \<and> Run m (db svc) [] w = (None, d1, tx1) \<and>
             Insert_ADD_VERSION (Version m) (now w) d1 w = Inl e \<longrightarrow>
           Upgrade svc w =
             (False, svc\<lparr>db := d1,
                err := Some (Wrap (if rollback_err w = None then ''add version'' else ''rollback'') e)\<rparr>))
      \<and> (\<forall>e d1 tx1 d2. begin_err w = None \<and> Run m (db svc) [] w = (None, d1, tx1) \<and>
             Insert_ADD_VERSION (Version m) (now w) d1 w = Inr d2 \<and> Commit tx1 d2 w = Inl e \<longrightarrow>
           Upgrade svc w =
             (False, svc\<lparr>db := d2,
                err := Some (Wrap (if rollback_err w = None then ''commit'' else ''rollback'') e)\<rparr>))"
    by (auto simp add: Upgrade_find apply_migration_def BeginTx_def deferred_rollback_def
        Rollback_def split: option.splits)
  show ?thesis
    using slot wrapped stages by (simp add: Upgrade_find)
qed

theorem Upgrade_error_slot_witness:
  "Upgrade (fresh_service [SQLMigration [] ''A'' 1])
       ((no_faults 7)\<lparr>exec_err := Some (External ''boom'')\<rparr>)
     = (False,
        \<lparr>db = \<lparr>statements = [(''DB_MIGRATION_1'', ''A'')], dbVersion = [], applied = []\<rparr>,
         migrations = [SQLMigration [] ''A'' 1],
         err = Some (Wrap ''exec'' (External ''boom''))\<rparr>)
   \<and> Upgrade
       \<lparr>db = \<lparr>statements = [], dbVersion = [(1, 5)], applied = [''A'']\<rparr>,
        migrations = [SQLMigration [] ''A'' 1], err = Some (External ''old'')\<rparr> (no_faults 7)
     = (False,
        \<lparr>db = \<lparr>statements = [], dbVersion = [(1, 5)], applied = [''A'']\<rparr>,
         migrations = [SQLMigration [] ''A'' 1], err = None\<rparr>)"
  using Upgrade_error_slot [of "fresh_service [SQLMigration [] ''A'' 1]"
      "(no_faults 7)\<lparr>exec_err := Some (External ''boom'')\<rparr>"]
    Upgrade_error_slot [of
      "\<lparr>db = \<lparr>statements = [], dbVersion = [(1, 5)], applied = [''A'']\<rparr>,
        migrations = [SQLMigration [] ''A'' 1], err = Some (External ''old'')\<rparr>" "no_faults 7"]
  by (simp add: model_defs)

text \<open>
  Claim C1. The claim is that the version insert runs inside the transaction of the
  migration body, so that a failed \<open>Upgrade\<close> leaves \<open>CurrentVersion\<close> as it was. The code
  inserts the row through \<open>svc.db.Insert\<close>, which is given no transaction, while the body
  runs through \<open>db.ExecTx\<close> with the transaction. Here the commit fails after the insert:
  \<open>Upgrade\<close> returns false with the error \<open>commit\<close> in the slot, nothing of the body is
  committed, and yet the current version has moved from \<open>-1\<close> to \<open>1\<close>.
\<close>

theorem Upgrade_commit_failure_not_atomic:
  "CurrentVersion (AddMigration (NewSQLMigration 1 ''CREATE TABLE t'') (fresh_service []))
       (no_faults 100) = Inr (- 1)
   \<and> Upgrade (AddMigration (NewSQLMigration 1 ''CREATE TABLE t'') (fresh_service []))
       ((no_faults 100)\<lparr>commit_err := Some (External ''commit failed'')\<rparr>)
     = (False,
        \<lparr>db = \<lparr>statements = [(''DB_MIGRATION_1'', ''CREATE TABLE t'')],
               dbVersion = [(1, 100)], applied = []\<rparr>,
         migrations = [SQLMigration [] ''CREATE TABLE t'' 1],
         err = Some (Wrap ''commit'' (External ''commit failed''))\<rparr>)
   \<and> CurrentVersion
        (snd (Upgrade (AddMigration (NewSQLMigration 1 ''CREATE TABLE t'') (fresh_service []))
           ((no_faults 100)\<lparr>commit_err := Some (External ''commit failed'')\<rparr>)))
        (no_faults 101) = Inr 1"
  by (simp add: model_defs)

section \<open>Running a SQL migration\<close>

text \<open>
  Claim C8. For a SQL migration, when registering its statement fails, \<open>Run\<close> returns nil
  and executes nothing (database and transaction are as before); when registration
  succeeds, the statement is executed in the supplied transaction, and a failure of that
  execution is the error returned.
\<close>

theorem SQLMigration_Run_soft_noop:
  "(\<forall>e. RegisterStatement (''DB_MIGRATION_'' @ Sprintf_d v) stmt d w = Inl e \<longrightarrow>
        Run (SQLMigration p stmt v) d tx w = (None, d, tx))
   \<and> (\<forall>d'. RegisterStatement (''DB_MIGRATION_'' @ Sprintf_d v) stmt d w = Inr d' \<longrightarrow>
        (\<forall>e. ExecTx tx (''DB_MIGRATION_'' @ Sprintf_d v) d' w = Inl e \<longrightarrow>
           Run (SQLMigration p stmt v) d tx w = (Some e, d', tx))
      \<and> (\<forall>tx'. ExecTx tx (''DB_MIGRATION_'' @ Sprintf_d v) d' w = Inr tx' \<longrightarrow>
           Run (SQLMigration p stmt v) d tx w = (None, d', tx') \<and> tx' = tx @ [stmt]))"
  by (auto simp: Let_def RegisterStatement_def ExecTx_def split: option.splits)

theorem SQLMigration_Run_soft_noop_witness:
  "Run (SQLMigration [] ''A'' 4) empty_database [] ((no_faults 0)\<lparr>register_err := Some (External ''bad sql'')\<rparr>)
     = (None, empty_database, [])
   \<and> Run (SQLMigration [] ''A'' 4) empty_database [] ((no_faults 0)\<lparr>exec_err := Some (External ''boom'')\<rparr>)
     = (Some (External ''boom''), empty_database\<lparr>statements := [(''DB_MIGRATION_4'', ''A'')]\<rparr>, [])
   \<and> Run (SQLMigration [] ''A'' 4) empty_database [] (no_faults 0)
     = (None, empty_database\<lparr>statements := [(''DB_MIGRATION_4'', ''A'')]\<rparr>, [''A''])"
  using SQLMigration_Run_soft_noop [of 4 "''A''" empty_database
      "(no_faults 0)\<lparr>register_err := Some (External ''bad sql'')\<rparr>" "[]" "[]"]
    SQLMigration_Run_soft_noop [of 4 "''A''" empty_database
      "(no_faults 0)\<lparr>exec_err := Some (External ''boom'')\<rparr>" "[]" "[]"]
    SQLMigration_Run_soft_noop [of 4 "''A''" empty_database "no_faults 0" "[]" "[]"]
  by (simp add: model_defs)

section \<open>Versions at or below the current one\<close>

lemma apply_migration_migrations:
  "apply_migration m (svc\<lparr>migrations := ms\<rparr>) w =
     (case apply_migration m svc w of (b, s) \<Rightarrow> (b, s\<lparr>migrations := ms\<rparr>))"
  by (auto simp add: apply_migration_def BeginTx_def deferred_rollback_def Rollback_def
      split: option.splits sum.splits prod.splits)

lemma getDbVersion_migrations_irrelevant [simp]:
  "getDbVersion (svc\<lparr>migrations := ms\<rparr>) w = getDbVersion svc w"
  by (simp add: getDbVersion_def)

lemma apply_migration_keeps_migrations:
  "migrations (snd (apply_migration m svc w)) = migrations svc"
  by (auto simp add: apply_migration_def BeginTx_def deferred_rollback_def Rollback_def
      split: option.splits sum.splits prod.splits)

lemma Upgrade_keeps_migrations:
  "migrations (snd (Upgrade svc w)) = migrations svc"
  by (auto simp add: Upgrade_find apply_migration_keeps_migrations split: sum.splits option.splits)

lemma Upgrade_same_selection:
  assumes "\<And>v. getDbVersion svc w = Inr v \<Longrightarrow>
             find (\<lambda>m. v < Version m) ms' = find (\<lambda>m. v < Version m) (migrations svc)"
  shows "Upgrade (svc\<lparr>migrations := ms'\<rparr>) w =
           (case Upgrade svc w of (b, s) \<Rightarrow> (b, s\<lparr>migrations := ms'\<rparr>))"
proof (cases "getDbVersion svc w")
  case (Inl e)
  then show ?thesis by (simp add: Upgrade_find)
next
  case (Inr v)
  have comm: "svc\<lparr>migrations := ms', err := None\<rparr> = svc\<lparr>err := None, migrations := ms'\<rparr>"
    by simp
  show ?thesis
    using Inr assms[OF Inr]
    by (simp add: Upgrade_find comm apply_migration_migrations del: Service.update_convs
        split: option.splits)
qed

lemma find_drop_duplicate:
  assumes "Version m' = Version m"
  shows "find (\<lambda>x. v < Version x) (pre @ m # mid @ post)
       = find (\<lambda>x. v < Version x) (pre @ m # mid @ m' # post)"
proof (induction pre)
  case Nil
  show ?case
  proof (cases "v < Version m")
    case True
    then show ?thesis by simp
  next
    case False
    then have "\<not> v < Version m'" using assms by simp
    then show ?thesis using False by (induction mid) auto
  qed
next
  case (Cons a pre)
  then show ?case by simp
qed

lemma find_filter_implied:
  "(\<And>x. P x \<Longrightarrow> Q x) \<Longrightarrow> find P (filter Q xs) = find P xs"
  by (induction xs) auto

lemma max_recorded_version_append:
  assumes "max_recorded_version d < v"
  shows "max_recorded_version (d\<lparr>dbVersion := dbVersion d @ [(v, t)]\<rparr>) = v"
proof (cases "dbVersion d = []")
  case True
  then show ?thesis by (simp add: max_recorded_version_def)
next
  case False
  then have "Max (fst ` set (dbVersion d)) < v"
    using assms by (simp add: max_recorded_version_def)
  moreover have "Max (insert v (fst ` set (dbVersion d))) = max v (Max (fst ` set (dbVersion d)))"
    using False by (intro Max_insert) auto
  ultimately show ?thesis
    by (simp add: max_recorded_version_def max_def)
qed

lemma apply_migration_version_mono:
  assumes "leaves_version_rows m" "max_recorded_version (db svc) < Version m"
  shows "max_recorded_version (db svc) \<le> max_recorded_version (db (snd (apply_migration m svc w)))"
proof -
  obtain r d1 tx1 where run: "Run m (db svc) [] w = (r, d1, tx1)"
    by (cases "Run m (db svc) [] w") auto
  have rows: "dbVersion d1 = dbVersion (db svc)"
    using assms(1) run unfolding leaves_version_rows_def by (metis fst_conv snd_conv)
  then have same: "max_recorded_version d1 = max_recorded_version (db svc)"
    by (simp add: max_recorded_version_def)
  have ins: "max_recorded_version (d1\<lparr>dbVersion := dbVersion d1 @ [(Version m, now w)]\<rparr>) = Version m"
    using max_recorded_version_append[of d1 "Version m" "now w"] same assms(2) by simp
  have com: "\<And>d x. max_recorded_version (d\<lparr>applied := x\<rparr>) = max_recorded_version d"
    by (simp add: max_recorded_version_def)
  show ?thesis
    using run same ins assms(2)
    by (auto simp add: apply_migration_def BeginTx_def deferred_rollback_def Rollback_def
        Insert_ADD_VERSION_def Commit_def com
        split: option.splits sum.splits prod.splits if_splits)
qed

lemma Upgrade_version_mono:
  assumes "\<forall>m \<in> set (migrations svc). leaves_version_rows m"
  shows "max_recorded_version (db svc) \<le> max_recorded_version (db (snd (Upgrade svc w)))"
proof (cases "getDbVersion svc w")
  case (Inl e)
  then show ?thesis by (simp add: Upgrade_find)
next
  case (Inr v)
  then have v: "v = max_recorded_version (db svc)"
    by (simp add: getDbVersion_eq split: option.splits)
  show ?thesis
  proof (cases "find (\<lambda>m. v < Version m) (migrations svc)")
    case None
    then show ?thesis using Inr by (simp add: Upgrade_find)
  next
    case (Some m)
    then have "m \<in> set (migrations svc)" "v < Version m"
      by (auto simp: find_Some_iff)
    then show ?thesis
      using Inr Some assms v apply_migration_version_mono[of m "svc\<lparr>err := None\<rparr>" w]
      by (simp add: Upgrade_find)
  qed
qed

lemma Upgrades_drop_superseded:
  assumes "\<forall>m \<in> set (migrations svc). leaves_version_rows m"
    and "v \<le> max_recorded_version (db svc)"
    and "ms' = filter (\<lambda>m. Version m \<noteq> v) (migrations svc)"
  shows "Upgrades (svc\<lparr>migrations := ms'\<rparr>) ws =
           (case Upgrades svc ws of (bs, s) \<Rightarrow> (bs, s\<lparr>migrations := ms'\<rparr>))"
  using assms
proof (induction ws arbitrary: svc)
  case Nil
  then show ?case by simp
next
  case (Cons w ws)
  obtain b s where U: "Upgrade svc w = (b, s)" by (cases "Upgrade svc w") auto
  have sel: "\<And>cur. getDbVersion svc w = Inr cur \<Longrightarrow>
        find (\<lambda>m. cur < Version m) ms' = find (\<lambda>m. cur < Version m) (migrations svc)"
  proof -
    fix cur assume "getDbVersion svc w = Inr cur"
    then have "cur = max_recorded_version (db svc)"
      by (simp add: getDbVersion_eq split: option.splits)
    then have "v \<le> cur" using Cons.prems(2) by simp
    then show "find (\<lambda>m. cur < Version m) ms' = find (\<lambda>m. cur < Version m) (migrations svc)"
      unfolding Cons.prems(3) by (intro find_filter_implied) auto
  qed
  have step: "Upgrade (svc\<lparr>migrations := ms'\<rparr>) w = (b, s\<lparr>migrations := ms'\<rparr>)"
    using Upgrade_same_selection[of svc w ms', OF sel] U by simp
  have ms: "migrations s = migrations svc"
    using Upgrade_keeps_migrations[of svc w] U by simp
  have inv: "v \<le> max_recorded_version (db s)"
    using Upgrade_version_mono[OF Cons.prems(1), of w] U Cons.prems(2) by simp
  have "Upgrades (s\<lparr>migrations := ms'\<rparr>) ws =
           (case Upgrades s ws of (bs, s') \<Rightarrow> (bs, s'\<lparr>migrations := ms'\<rparr>))"
    using Cons.IH[of s] Cons.prems ms inv by simp
  then show ?case
    using U step by (simp split: prod.splits)
qed

lemma Upgrades_same_selection:
  assumes "\<And>v. find (\<lambda>m. v < Version m) ms' = find (\<lambda>m. v < Version m) (migrations svc)"
  shows "Upgrades (svc\<lparr>migrations := ms'\<rparr>) ws =
           (case Upgrades svc ws of (bs, s) \<Rightarrow> (bs, s\<lparr>migrations := ms'\<rparr>))"
  using assms
proof (induction ws arbitrary: svc)
  case Nil
  then show ?case by simp
next
  case (Cons w ws)
  obtain b s where U: "Upgrade svc w = (b, s)" by (cases "Upgrade svc w") auto
  have step: "Upgrade (svc\<lparr>migrations := ms'\<rparr>) w = (b, s\<lparr>migrations := ms'\<rparr>)"
    using Upgrade_same_selection[of svc w ms'] Cons.prems U by simp
  have ms: "migrations s = migrations svc"
    using Upgrade_keeps_migrations[of svc w] U by simp
  have "Upgrades (s\<lparr>migrations := ms'\<rparr>) ws =
           (case Upgrades s ws of (bs, s') \<Rightarrow> (bs, s'\<lparr>migrations := ms'\<rparr>))"
    using Cons.IH[of s] Cons.prems ms by simp
  then show ?case
    using U step by (simp split: prod.splits)
qed

lemma leaves_version_rows_SQL [simp]: "leaves_version_rows (SQLMigration p stmt v)"
  by (auto simp: leaves_version_rows_def Let_def RegisterStatement_def ExecTx_def
      split: option.splits)

text \<open>
  Claim C10. Once the current version recorded in the version store is \<open>v\<close>, no migration
  of version \<open>v\<close> is run by any later \<open>Upgrade\<close> call: for every sequence of calls, the
  results and the final database are those obtained with all migrations of version \<open>v\<close>
  removed from the set (migration bodies are taken not to change the rows of \<open>dbVersion\<close>).
  And of two migrations with the same version only the first in the set can ever be
  applied: removing the later copy changes no result of any sequence of calls.
  Call by call: the migration a call applies has a version other than the one it read,
  and the recorded version never goes down.
\<close>

theorem Upgrade_never_reruns_version:
  "((\<forall>m \<in> set (migrations svc). leaves_version_rows m) \<and> max_recorded_version (db svc) = v \<longrightarrow>
      Upgrades (svc\<lparr>migrations := filter (\<lambda>m. Version m \<noteq> v) (migrations svc)\<rparr>) ws =
        (case Upgrades svc ws of
           (bs, s) \<Rightarrow> (bs, s\<lparr>migrations := filter (\<lambda>m. Version m \<noteq> v) (migrations svc)\<rparr>)))
   \<and> (\<forall>pre m mid m' post.
        migrations svc = pre @ m # mid @ m' # post \<and> Version m' = Version m \<longrightarrow>
        Upgrades (svc\<lparr>migrations := pre @ m # mid @ post\<rparr>) ws =
          (case Upgrades svc ws of (bs, s) \<Rightarrow> (bs, s\<lparr>migrations := pre @ m # mid @ post\<rparr>)))
   \<and> (\<forall>w cur m. getDbVersion svc w = Inr cur \<and>
          find (\<lambda>m. cur < Version m) (migrations svc) = Some m \<longrightarrow>
        Upgrade svc w = apply_migration m (svc\<lparr>err := None\<rparr>) w \<and> Version m \<noteq> cur)
   \<and> (\<forall>w. (\<forall>m \<in> set (migrations svc). leaves_version_rows m) \<longrightarrow>
        max_recorded_version (db svc) \<le> max_recorded_version (db (snd (Upgrade svc w))))"
proof (intro conjI allI impI)
  assume "(\<forall>m \<in> set (migrations svc). leaves_version_rows m) \<and> max_recorded_version (db svc) = v"
  then show "Upgrades (svc\<lparr>migrations := filter (\<lambda>m. Version m \<noteq> v) (migrations svc)\<rparr>) ws =
        (case Upgrades svc ws of
           (bs, s) \<Rightarrow> (bs, s\<lparr>migrations := filter (\<lambda>m. Version m \<noteq> v) (migrations svc)\<rparr>))"
    using Upgrades_drop_superseded[of svc v _ ws] by simp
next
  fix pre m mid m' post
  assume "migrations svc = pre @ m # mid @ m' # post \<and> Version m' = Version m"
  then show "Upgrades (svc\<lparr>migrations := pre @ m # mid @ post\<rparr>) ws =
          (case Upgrades svc ws of (bs, s) \<Rightarrow> (bs, s\<lparr>migrations := pre @ m # mid @ post\<rparr>))"
    using Upgrades_same_selection[of "pre @ m # mid @ post" svc ws]
      find_drop_duplicate[of m' m _ pre mid post] by simp
next
  fix w cur m
  assume a: "getDbVersion svc w = Inr cur \<and>
          find (\<lambda>m. cur < Version m) (migrations svc) = Some m"
  then show "Upgrade svc w = apply_migration m (svc\<lparr>err := None\<rparr>) w"
    by (simp add: Upgrade_find)
  from a have "cur < Version m" by (auto simp: find_Some_iff)
  then show "Version m \<noteq> cur" by simp
next
  fix w
  assume "\<forall>m \<in> set (migrations svc). leaves_version_rows m"
  then show "max_recorded_version (db svc) \<le> max_recorded_version (db (snd (Upgrade svc w)))"
    by (rule Upgrade_version_mono)
qed

theorem Upgrade_never_reruns_version_witness:
  "leaves_version_rows (SQLMigration [] ''A'' 1)
   \<and> leaves_version_rows (SQLMigration [] ''B'' 1)
   \<and> leaves_version_rows (SQLMigration [] ''C'' 2)
   \<and> max_recorded_version \<lparr>statements = [], dbVersion = [(1, 5)], applied = [''A'']\<rparr> = 1
   \<and> Upgrades
        \<lparr>db = \<lparr>statements = [], dbVersion = [(1, 5)], applied = [''A'']\<rparr>,
         migrations = [SQLMigration [] ''C'' 2], err = None\<rparr>
        [no_faults 10, no_faults 11]
      = ([True, False],
         \<lparr>db = \<lparr>statements = [(''DB_MIGRATION_2'', ''C'')], dbVersion = [(1, 5), (2, 10)],
                applied = [''A'', ''C'']\<rparr>,
          migrations = [SQLMigration [] ''C'' 2], err = None\<rparr>)
   \<and> Upgrades (fresh_service [SQLMigration [] ''A'' 1, SQLMigration [] ''C'' 2])
        [no_faults 10, no_faults 11, no_faults 12]
      = ([True, True, False],
         \<lparr>db = \<lparr>statements = [(''DB_MIGRATION_2'', ''C''), (''DB_MIGRATION_1'', ''A'')],
                dbVersion = [(1, 10), (2, 11)], applied = [''A'', ''C'']\<rparr>,
          migrations = [SQLMigration [] ''A'' 1, SQLMigration [] ''C'' 2], err = None\<rparr>)"
  using Upgrade_never_reruns_version [of
      "\<lparr>db = \<lparr>statements = [], dbVersion = [(1, 5)], applied = [''A'']\<rparr>,
        migrations = [SQLMigration [] ''A'' 1, SQLMigration [] ''B'' 1, SQLMigration [] ''C'' 2],
        err = None\<rparr>" 1 "[no_faults 10, no_faults 11]"]
    Upgrade_never_reruns_version [of
      "fresh_service [SQLMigration [] ''A'' 1, SQLMigration [] ''B'' 1, SQLMigration [] ''C'' 2]"
      1 "[no_faults 10, no_faults 11, no_faults 12]",
      THEN conjunct2, THEN conjunct1, rule_format, of "[]" "SQLMigration [] ''A'' 1" "[]" "SQLMigration [] ''B'' 1"
        "[SQLMigration [] ''C'' 2]"]
  by (simp add: model_defs max_recorded_version_def)

section \<open>Loading from an empty path\<close>

text \<open>
  Claim C9. Loading from the empty path succeeds and adds no migration; the set holds
  the same migrations as before (sorted by version).
\<close>

theorem LoadMigrations_empty_path:
  "LoadMigrations svc h [] = (None, svc\<lparr>migrations := sort_key Version (migrations svc)\<rparr>)
   \<and> mset (migrations (snd (LoadMigrations svc h []))) = mset (migrations svc)"
  by (simp add: LoadMigrations_def getMigrations_def Let_def)

section \<open>The loader\<close>

lemmas loader_defs =
  LoadMigrations_def getMigrations_def load_entry_def NewSQLMigrationFile_def
  NewPluginMigration_def path_Join_def path_Clean_def path_Ext_def ToLower_def lower_char_def
  match_here_def is_digit_def Atoi_def digit_val_def example_host_def

lemma load_loop_first_failure:
  "map (load_entry h folder) good = map Inr loaded \<Longrightarrow> load_entry h folder bad = Inl e \<Longrightarrow>
     load_loop h folder (good @ bad # rest) svc
       = (Some e, svc\<lparr>migrations := migrations svc @ loaded\<rparr>)"
proof (induction good arbitrary: svc loaded)
  case Nil
  then show ?case by simp
next
  case (Cons f good)
  then obtain m ms where l: "loaded = m # ms" "load_entry h folder f = Inr m"
    "map (load_entry h folder) good = map Inr ms"
    by (cases loaded) auto
  show ?case
    using Cons.IH[OF l(3) Cons.prems(2), of "svc\<lparr>migrations := migrations svc @ [m]\<rparr>"] l
    by simp
qed

lemma load_loop_None:
  "load_loop h folder files svc = (None, svc1) \<Longrightarrow>
     \<exists>loaded. map (load_entry h folder) files = map Inr loaded \<and>
       svc1 = svc\<lparr>migrations := migrations svc @ loaded\<rparr>"
proof (induction files arbitrary: svc)
  case Nil
  then show ?case by simp
next
  case (Cons f files)
  then obtain m where m: "load_entry h folder f = Inr m"
    and rec: "load_loop h folder files (svc\<lparr>migrations := migrations svc @ [m]\<rparr>) = (None, svc1)"
    by (auto split: sum.splits)
  from Cons.IH[OF rec] obtain loaded where
    "map (load_entry h folder) files = map Inr loaded"
    "svc1 = svc\<lparr>migrations := migrations svc @ [m] @ loaded\<rparr>" by auto
  then show ?case
    using m by (intro exI[of _ "m # loaded"]) simp
qed

text \<open>
  Claim C3, as the code has it. When an entry of the folder fails to load, the load
  returns the error of the first failing entry (wrapped), and the migrations of the
  entries listed before it have already been appended to the set, unsorted: the set after
  the failed call is the set before it followed by those migrations. It is the set as
  before only when the first entry is the failing one, or when the folder cannot be
  listed.
\<close>

theorem LoadMigrations_failure_keeps_earlier_entries:
  "(\<forall>good bad rest loaded e.
      folder \<noteq> [] \<and> ReadDir h folder = Inr (good @ bad # rest) \<and>
      map (load_entry h folder) good = map Inr loaded \<and> load_entry h folder bad = Inl e \<longrightarrow>
        LoadMigrations svc h folder
          = (Some (Wrap [] e), svc\<lparr>migrations := migrations svc @ loaded\<rparr>))
   \<and> (\<forall>e. folder \<noteq> [] \<and> ReadDir h folder = Inl e \<longrightarrow>
        LoadMigrations svc h folder = (Some (Wrap [] (Wrap ''readdir'' e)), svc))"
  by (auto simp: LoadMigrations_def getMigrations_def load_loop_first_failure)

theorem LoadMigrations_failure_keeps_earlier_entries_witness:
  "ReadDir example_host ''bad'' = Inr ([''0001_a.sql''] @ ''0002_b.txt'' # [''0003_c.sql''])
   \<and> map (load_entry example_host ''bad'') [''0001_a.sql'']
        = map Inr [SQLMigration ''bad/0001_a.sql'' ''SELECT 1'' 1]
   \<and> load_entry example_host ''bad'' ''0002_b.txt''
        = Inl (Wrap ''extension .txt'' ErrUnknownMigrationType)
   \<and> LoadMigrations (fresh_service []) example_host ''bad''
        = (Some (Wrap [] (Wrap ''extension .txt'' ErrUnknownMigrationType)),
           fresh_service [SQLMigration ''bad/0001_a.sql'' ''SELECT 1'' 1])
   \<and> LoadMigrations (fresh_service []) example_host ''nowhere''
        = (Some (Wrap [] (Wrap ''readdir'' (External ''no such directory''))), fresh_service [])"
  using LoadMigrations_failure_keeps_earlier_entries [of "''bad''" example_host "fresh_service []"]
    LoadMigrations_failure_keeps_earlier_entries [of "''nowhere''" example_host "fresh_service []"]
  by (simp add: loader_defs fresh_service_def)

text \<open>
  The claim C3 as stated fails: in folder \<open>bad\<close> the second entry has an unknown suffix,
  the load returns \<open>ErrUnknownMigrationType\<close>, and the migration of the first entry is in
  the set afterwards.
\<close>

theorem LoadMigrations_partial_counterexample:
  "fst (LoadMigrations (fresh_service []) example_host ''bad'')
      = Some (Wrap [] (Wrap ''extension .txt'' ErrUnknownMigrationType))
   \<and> migrations (fresh_service []) = []
   \<and> migrations (snd (LoadMigrations (fresh_service []) example_host ''bad''))
      = [SQLMigration ''bad/0001_a.sql'' ''SELECT 1'' 1]
   \<and> migrations (snd (LoadMigrations (fresh_service []) example_host ''bad''))
      \<noteq> migrations (fresh_service [])"
  by (simp add: loader_defs fresh_service_def)

section \<open>Order of the migration set\<close>

text \<open>
  The loading path keeps the set in order: a successful load leaves the whole set,
  the migrations added before the load included, stably sorted ascending by version,
  whatever order the entries were listed in.
\<close>

lemma LoadMigrations_sorts_whole_set:
  assumes L: "LoadMigrations svc h folder = (None, svc1)"
  shows "\<exists>files loaded.
         (if folder = [] then files = [] else ReadDir h folder = Inr files) \<and>
         map (load_entry h folder) files = map Inr loaded \<and>
         svc1 = svc\<lparr>migrations := sort_key Version (migrations svc @ loaded)\<rparr> \<and>
         sorted (map Version (migrations svc1)) \<and>
         mset (migrations svc1) = mset (migrations svc) + mset loaded \<and>
         (\<forall>k. filter (\<lambda>m. Version m = k) (migrations svc1)
               = filter (\<lambda>m. Version m = k) (migrations svc @ loaded))"
proof -
  define files where
    "files = (if folder = [] then [] else (case ReadDir h folder of Inr fs \<Rightarrow> fs | Inl e \<Rightarrow> []))"
  have rd: "if folder = [] then files = [] else ReadDir h folder = Inr files"
    using L
    by (auto simp: files_def LoadMigrations_def getMigrations_def split: sum.splits if_splits)
  then have dir: "(if length folder > 0 then ReadDir h folder else Inr []) = Inr files"
    by (auto split: if_splits)
  from L obtain svc0 where ll: "load_loop h folder files svc = (None, svc0)"
    and s1: "svc1 = svc0\<lparr>migrations := sort_key Version (migrations svc0)\<rparr>"
    unfolding LoadMigrations_def getMigrations_def dir
    by (auto simp: Let_def split: sum.splits prod.splits option.splits)
  from load_loop_None[OF ll] obtain loaded where
    lo: "map (load_entry h folder) files = map Inr loaded"
    and s0: "svc0 = svc\<lparr>migrations := migrations svc @ loaded\<rparr>" by auto
  have eq: "svc1 = svc\<lparr>migrations := sort_key Version (migrations svc @ loaded)\<rparr>"
    using s1 s0 by simp
  have stable: "\<forall>k. filter (\<lambda>m. Version m = k) (migrations svc1)
               = filter (\<lambda>m. Version m = k) (migrations svc @ loaded)"
    unfolding eq by (simp add: sort_key_stable del: filter_append)
  show ?thesis
    using rd lo eq stable
    by (intro exI[of _ files] exI[of _ loaded]) (simp del: filter_append)
qed

text \<open>
  Claim C2. The claim is that the set is kept sorted ascending by version, so that for
  every set, also one extended through \<open>AddMigration\<close>, repeated \<open>Upgrade\<close> calls apply the
  migrations in ascending version order. The loading path sorts the whole set after
  appending; \<open>AddMigration\<close> appends and does not sort, and \<open>Upgrade\<close> scans the set as it
  is. A migration of version 2 added before the load of versions 3 and 1 ends up in its
  place. Added after the load it stays behind version 3: three \<open>Upgrade\<close> calls apply
  versions 1 and 3 and then report nothing pending with no error, and the statement \<open>B\<close>
  of version 2 is never executed. The same happens without any load, for version 3 added
  before version 1.
\<close>

theorem AddMigration_unsorted_skips_migration:
  "LoadMigrations (AddMigration (NewSQLMigration 2 ''B'') (fresh_service [])) example_host ''m''
     = (None,
        fresh_service [SQLMigration ''m/0001_y.sql'' ''SELECT 1'' 1, SQLMigration [] ''B'' 2,
                       SQLMigration ''m/0003_x.sql'' ''SELECT 1'' 3])
   \<and> AddMigration (NewSQLMigration 2 ''B'')
        (snd (LoadMigrations (fresh_service []) example_host ''m''))
     = fresh_service [SQLMigration ''m/0001_y.sql'' ''SELECT 1'' 1,
                      SQLMigration ''m/0003_x.sql'' ''SELECT 1'' 3, SQLMigration [] ''B'' 2]
   \<and> \<not> sorted (map Version (migrations (AddMigration (NewSQLMigration 2 ''B'')
        (snd (LoadMigrations (fresh_service []) example_host ''m'')))))
   \<and> Upgrades (AddMigration (NewSQLMigration 2 ''B'')
        (snd (LoadMigrations (fresh_service []) example_host ''m'')))
        [no_faults 10, no_faults 11, no_faults 12]
     = ([True, True, False],
        \<lparr>db = \<lparr>statements = [(''DB_MIGRATION_3'', ''SELECT 1''), (''DB_MIGRATION_1'', ''SELECT 1'')],
               dbVersion = [(1, 10), (3, 11)], applied = [''SELECT 1'', ''SELECT 1'']\<rparr>,
         migrations = [SQLMigration ''m/0001_y.sql'' ''SELECT 1'' 1,
                       SQLMigration ''m/0003_x.sql'' ''SELECT 1'' 3, SQLMigration [] ''B'' 2],
         err = None\<rparr>)
   \<and> Upgrades (AddMigration (NewSQLMigration 1 ''A'')
        (AddMigration (NewSQLMigration 3 ''C'') (fresh_service [])))
        [no_faults 10, no_faults 11]
     = ([True, False],
        \<lparr>db = \<lparr>statements = [(''DB_MIGRATION_3'', ''C'')], dbVersion = [(3, 10)],
               applied = [''C'']\<rparr>,
         migrations = [SQLMigration [] ''C'' 3, SQLMigration [] ''A'' 1],
         err = None\<rparr>)"
  by (simp add: loader_defs model_defs)

section \<open>The file name check\<close>






lemma match_here_Nil [simp]: "match_here [] = None"
  by (simp add: match_here_def)










end
